theory Spec2Isabelle
  imports Main
begin

unbundle bit_operations_syntax

section \<open>Library functions the package calls\<close>

subsection \<open>strings.Split with a one-byte separator\<close>

text \<open>
  The package calls \<^verbatim>\<open>strings.Split(h, "-")\<close>. Go's \<^verbatim>\<open>genSplit\<close> repeatedly finds
  the first index \<open>m\<close> of the separator, emits \<open>s[:m]\<close> and continues with
  \<open>s[m+1:]\<close>; when the separator no longer occurs, the rest of the string is the
  last part. The result therefore always has at least one element (the empty string
  splits into one empty part). Strings are byte lists.
\<close>

function Split :: "string \<Rightarrow> char \<Rightarrow> string list" where
  "Split s sep =
     (case dropWhile (\<lambda>c. c \<noteq> sep) s of
        [] \<Rightarrow> [s]
      | _ # rest \<Rightarrow> takeWhile (\<lambda>c. c \<noteq> sep) s # Split rest sep)"
  by pat_completeness auto
termination
proof (relation "measure (\<lambda>(s, sep). length s)")
  show "wf (measure (\<lambda>(s, sep). length s))" by simp
next
  fix s :: string and sep :: char and x21 :: char and x22 :: string
  assume d: "dropWhile (\<lambda>c. c \<noteq> sep) s = x21 # x22"
  have "length (dropWhile (\<lambda>c. c \<noteq> sep) s) \<le> length s"
    by (rule length_dropWhile_le)
  with d show "((x22, sep), (s, sep)) \<in> measure (\<lambda>(s, sep). length s)"
    by simp
qed

declare Split.simps [simp del]

subsection \<open>strconv.ParseUint and strconv.ParseInt with an explicit base\<close>

text \<open>
  The package calls \<^verbatim>\<open>strconv.ParseInt(s, 16, 8)\<close>. The model follows the Go
  functions for an explicit base between 2 and 36 (the prefix detection of base 0 is
  never reached by this package and is left out). Like the Go functions, both return a
  value together with an optional error; \<open>uint64\<close> arithmetic is written on
  \<open>nat\<close> with the wrap-around modulo \<open>2 ^ 64\<close> spelled out.
\<close>

datatype NumError = ErrSyntax | ErrRange | ErrBase | ErrBitSize

definition lower :: "nat \<Rightarrow> nat" where
  \<comment> \<open>\<^verbatim>\<open>c | ('x' - 'X')\<close>\<close>
  "lower c = c OR 32"

definition digit_val :: "char \<Rightarrow> nat option" where
  \<comment> \<open>the \<^verbatim>\<open>switch\<close> of the digit loop; \<open>None\<close> is its \<^verbatim>\<open>default\<close> branch\<close>
  "digit_val ch =
     (let c = of_char ch :: nat in
      if 48 \<le> c \<and> c \<le> 57 then Some (c - 48)
      else if 97 \<le> lower c \<and> lower c \<le> 122 then Some (lower c - 97 + 10)
      else None)"

fun ParseUint_loop :: "nat \<Rightarrow> nat \<Rightarrow> nat \<Rightarrow> nat \<Rightarrow> string \<Rightarrow> nat \<times> NumError option" where
  "ParseUint_loop base cutoff maxVal n [] = (n, None)"
| "ParseUint_loop base cutoff maxVal n (ch # s) =
     (case digit_val ch of
        None \<Rightarrow> (0, Some ErrSyntax)
      | Some d \<Rightarrow>
          if d \<ge> base then (0, Some ErrSyntax)
          else if n \<ge> cutoff then (maxVal, Some ErrRange)
          else
            let n' = (n * base) mod 2 ^ 64;
                n1 = (n' + d) mod 2 ^ 64
            in if n1 < n' \<or> n1 > maxVal then (maxVal, Some ErrRange)
               else ParseUint_loop base cutoff maxVal n1 s)"

definition ParseUint :: "string \<Rightarrow> nat \<Rightarrow> nat \<Rightarrow> nat \<times> NumError option" where
  "ParseUint s base bitSize =
     (if s = [] then (0, Some ErrSyntax)
      else if \<not> (2 \<le> base \<and> base \<le> 36) then (0, Some ErrBase)
      else if bitSize > 64 then (0, Some ErrBitSize)
      else
        let bitSize' = (if bitSize = 0 then 64 else bitSize);
            cutoff = (2 ^ 64 - 1) div base + 1;
            maxVal = 2 ^ bitSize' - 1
        in ParseUint_loop base cutoff maxVal 0 s)"

definition ParseInt :: "string \<Rightarrow> nat \<Rightarrow> nat \<Rightarrow> int \<times> NumError option" where
  "ParseInt s0 base bitSize =
     (if s0 = [] then (0, Some ErrSyntax)
      else
        let neg = (hd s0 = CHR ''-'');
            s = (if hd s0 = CHR ''+'' \<or> hd s0 = CHR ''-'' then tl s0 else s0)
        in case ParseUint s base bitSize of
             (un, err) \<Rightarrow>
               if err \<noteq> None \<and> err \<noteq> Some ErrRange then (0, err)
               else
                 let bitSize' = (if bitSize = 0 then 64 else bitSize);
                     cutoff = (2 :: nat) ^ (bitSize' - 1)
                 in if \<not> neg \<and> un \<ge> cutoff then (int cutoff - 1, Some ErrRange)
                    else if neg \<and> un > cutoff then (- int cutoff, Some ErrRange)
                    else (if neg then - int un else int un, None))"

subsection \<open>net/http: header lookup\<close>

text \<open>
  \<^verbatim>\<open>r.Header.Get(key)\<close> canonicalises the key (first letter and every letter after
  a dash in upper case, the others in lower case, provided every byte is a token
  character) and returns the first value stored under it, or the empty string.
\<close>

definition validHeaderFieldByte :: "char \<Rightarrow> bool" where
  "validHeaderFieldByte ch =
     (let c = of_char ch :: nat in
      (48 \<le> c \<and> c \<le> 57) \<or> (65 \<le> c \<and> c \<le> 90) \<or> (97 \<le> c \<and> c \<le> 122) \<or>
      c \<in> {33, 35, 36, 37, 38, 39, 42, 43, 45, 46, 94, 95, 96, 124, 126})"

fun canonicalise :: "bool \<Rightarrow> string \<Rightarrow> string" where
  "canonicalise upper [] = []"
| "canonicalise upper (ch # s) =
     (let c = of_char ch :: nat;
          ch' = (if upper \<and> 97 \<le> c \<and> c \<le> 122 then char_of (c - 32)
                 else if \<not> upper \<and> 65 \<le> c \<and> c \<le> 90 then char_of (c + 32)
                 else ch)
      in ch' # canonicalise (ch' = CHR ''-'') s)"

definition CanonicalMIMEHeaderKey :: "string \<Rightarrow> string" where
  "CanonicalMIMEHeaderKey s =
     (if list_all validHeaderFieldByte s then canonicalise True s else s)"

type_synonym Header = "string \<rightharpoonup> string list"

definition Header_Get :: "Header \<Rightarrow> string \<Rightarrow> string" where
  "Header_Get h key =
     (case h (CanonicalMIMEHeaderKey key) of
        None \<Rightarrow> []
      | Some [] \<Rightarrow> []
      | Some (v # _) \<Rightarrow> v)"

section \<open>The package traceparent\<close>

subsection \<open>Trace and the context that stores it\<close>

record Trace =
  ID :: string
  SpanID :: string
  Sampled :: bool

text \<open>
  Context keys are compared with \<open>==\<close>; \<open>traceContextKeyT\<close> is the package's
  unexported key type, of which there is one value. A stored value is an \<open>any\<close>:
  \<open>nil\<close>, a \<open>Trace\<close>, or a value of another dynamic type.
\<close>

datatype key = traceContextKeyT | OtherKey string

datatype any = NilVal | TraceVal Trace | OtherVal string

text \<open>
  A (non-nil) \<open>context.Context\<close> is a chain of derivations from the background
  context. \<open>WithValue\<close> adds one key/value pair; \<open>WithCancel\<close> stands for the
  derivations that carry no value of their own (cancellation, deadlines).
\<close>

datatype Context = Background | WithValue Context key any | WithCancel Context

fun Value :: "Context \<Rightarrow> key \<Rightarrow> any" where
  "Value Background k = NilVal"
| "Value (WithValue parent k' v) k = (if k' = k then v else Value parent k)"
| "Value (WithCancel parent) k = Value parent k"

definition Trace_Context :: "Trace \<Rightarrow> Context \<Rightarrow> Context" where
  \<comment> \<open>\<^verbatim>\<open>context.WithValue(ctx, traceContextKeyT{}, trace)\<close>\<close>
  "Trace_Context trace ctx = WithValue ctx traceContextKeyT (TraceVal trace)"

definition Trace_assertion :: "any \<Rightarrow> Trace \<times> bool" where
  \<comment> \<open>the type assertion \<^verbatim>\<open>v.(Trace)\<close>: the zero \<open>Trace\<close> and \<open>false\<close> when it fails\<close>
  "Trace_assertion v =
     (case v of
        TraceVal trace \<Rightarrow> (trace, True)
      | _ \<Rightarrow> (\<lparr>ID = [], SpanID = [], Sampled = False\<rparr>, False))"

subsection \<open>The middleware\<close>

text \<open>
  Of a \<open>*http.Request\<close> the model keeps the header map (keyed by canonical names),
  the context field, which may be unset, and the method, URL and body as the fields the
  middleware must leave alone. A handler maps the response writer's state and the
  request to the writer's new state. A request value stands for the request object the
  handler is given: passing \<open>r\<close> on is passing the same object, with the same
  context, whereas \<open>WithContext\<close> makes a copy that differs in the context field.
\<close>

record Request =
  Method :: string
  URL :: string
  Header :: Header
  Body :: string
  ctx :: "Context option"

definition Request_Context :: "Request \<Rightarrow> Context" where
  \<comment> \<open>\<^verbatim>\<open>r.Context()\<close>: the background context when the field is unset\<close>
  "Request_Context r = (case ctx r of Some c \<Rightarrow> c | None \<Rightarrow> Background)"

definition WithContext :: "Request \<Rightarrow> Context \<Rightarrow> Request" where
  \<comment> \<open>\<^verbatim>\<open>r.WithContext(ctx)\<close>: a shallow copy with the context replaced\<close>
  "WithContext r c = r\<lparr>ctx := Some c\<rparr>"

type_synonym 'w Handler = "'w \<Rightarrow> Request \<Rightarrow> 'w"

definition New :: "'w Handler \<Rightarrow> 'w Handler" where
  "New next w r =
     (let traceparent = Split (Header_Get (Header r) ''traceparent'') CHR ''-''
      in if length traceparent = 4 \<and> traceparent ! 0 = ''00'' then
           (case ParseInt (traceparent ! 3) 16 8 of
              (flags, err) \<Rightarrow>
                if err = None then
                  (let trace = \<lparr>ID = traceparent ! 1,
                                 SpanID = traceparent ! 2,
                                 Sampled = (flags AND 1 \<noteq> 0)\<rparr>;
                       c = Trace_Context trace (Request_Context r)
                   in next w (WithContext r c))
                else next w r)
         else next w r)"

subsection \<open>The log field extractor\<close>

datatype slog_Value = StringValue string | BoolValue bool

datatype Attr = Attr string slog_Value

definition slog_String :: "string \<Rightarrow> string \<Rightarrow> Attr" where
  "slog_String k v = Attr k (StringValue v)"

definition slog_Bool :: "string \<Rightarrow> bool \<Rightarrow> Attr" where
  "slog_Bool k v = Attr k (BoolValue v)"

type_synonym Time = int
type_synonym Level = int

definition TraceParentExtractor :: "Context \<Rightarrow> Time \<Rightarrow> Level \<Rightarrow> string \<Rightarrow> Attr list" where
  "TraceParentExtractor c recordT recordLvl recordMsg =
     (case Trace_assertion (Value c traceContextKeyT) of
        (trace, ok) \<Rightarrow>
          if \<not> ok \<or> ID trace = [] then []
          else
            let attrs = [slog_String ''traceID'' (ID trace),
                         slog_Bool ''traceSampled'' (Sampled trace)]
            in if SpanID trace \<noteq> [] then attrs @ [slog_String ''spanID'' (ID trace)]
               else attrs)"


section \<open>Notions the statements use\<close>

subsection \<open>Hexadecimal numerals, as the specification words them\<close>

text \<open>
  The digits of base 16 and their values are given by a table; \<open>hex_nat\<close> is the value
  of a digit string, most significant digit first. \<open>spec_hex_int8\<close> is the
  specification's ``base-16 integer fitting in a signed 8-bit range'': an optional
  sign, at least one hexadecimal digit, and a value between -128 and 127. It is
  compared below with \<open>ParseInt s 16 8\<close>, which is defined from the library's loop.
\<close>

definition hex_table :: "(char \<times> nat) list" where
  "hex_table =
     [(CHR ''0'', 0), (CHR ''1'', 1), (CHR ''2'', 2), (CHR ''3'', 3), (CHR ''4'', 4),
      (CHR ''5'', 5), (CHR ''6'', 6), (CHR ''7'', 7), (CHR ''8'', 8), (CHR ''9'', 9),
      (CHR ''a'', 10), (CHR ''b'', 11), (CHR ''c'', 12), (CHR ''d'', 13), (CHR ''e'', 14),
      (CHR ''f'', 15), (CHR ''A'', 10), (CHR ''B'', 11), (CHR ''C'', 12), (CHR ''D'', 13),
      (CHR ''E'', 14), (CHR ''F'', 15)]"

definition hex_value :: "char \<Rightarrow> nat option" where
  "hex_value c = map_of hex_table c"

definition is_hex_digit :: "char \<Rightarrow> bool" where
  "is_hex_digit c = (hex_value c \<noteq> None)"

definition is_lower_hex_digit :: "char \<Rightarrow> bool" where
  "is_lower_hex_digit c = (c \<in> set ''0123456789abcdef'')"

fun hex_acc :: "nat \<Rightarrow> string \<Rightarrow> nat" where
  "hex_acc n [] = n"
| "hex_acc n (c # s) = hex_acc (16 * n + (case hex_value c of Some d \<Rightarrow> d | None \<Rightarrow> 0)) s"

definition hex_nat :: "string \<Rightarrow> nat" where
  "hex_nat s = hex_acc 0 s"

definition spec_hex_int8 :: "string \<Rightarrow> int option" where
  "spec_hex_int8 s =
     (case s of
        [] \<Rightarrow> None
      | c # cs \<Rightarrow>
          let ds = (if c = CHR ''+'' \<or> c = CHR ''-'' then cs else s);
              v = (if c = CHR ''-'' then - int (hex_nat ds) else int (hex_nat ds))
          in if ds \<noteq> [] \<and> list_all is_hex_digit ds \<and> - 128 \<le> v \<and> v \<le> 127
             then Some v else None)"

definition base16_digit :: "char \<Rightarrow> nat option" where
  \<comment> \<open>what the digit loop accepts in base 16: the \<^verbatim>\<open>switch\<close> followed by \<^verbatim>\<open>d >= base\<close>\<close>
  "base16_digit c =
     (case digit_val c of None \<Rightarrow> None | Some d \<Rightarrow> if d \<ge> 16 then None else Some d)"

subsection \<open>Derived contexts\<close>

text \<open>
  A further derivation of a context either adds a key/value pair or adds cancellation.
  It is unrelated to the trace when it does not use the package's key (which code
  outside the package cannot name). \<open>derived_by_Trace_Context c\<close> says that some
  link of the chain \<open>c\<close> was made by \<open>Trace_Context\<close>.
\<close>

datatype derivation = DeriveValue key any | DeriveCancel

fun derive_step :: "Context \<Rightarrow> derivation \<Rightarrow> Context" where
  "derive_step c (DeriveValue k v) = WithValue c k v"
| "derive_step c DeriveCancel = WithCancel c"

definition derive :: "Context \<Rightarrow> derivation list \<Rightarrow> Context" where
  "derive c ds = foldl derive_step c ds"

fun unrelated :: "derivation \<Rightarrow> bool" where
  "unrelated (DeriveValue k v) = (k \<noteq> traceContextKeyT)"
| "unrelated DeriveCancel = True"

fun derived_by_Trace_Context :: "Context \<Rightarrow> bool" where
  "derived_by_Trace_Context Background = False"
| "derived_by_Trace_Context (WithValue parent k v) =
     ((k = traceContextKeyT \<and> (case v of TraceVal t \<Rightarrow> True | _ \<Rightarrow> False))
      \<or> derived_by_Trace_Context parent)"
| "derived_by_Trace_Context (WithCancel parent) = derived_by_Trace_Context parent"

subsection \<open>Requests and handlers used as examples\<close>

text \<open>
  \<open>capture\<close> is an inner handler that appends the request it is invoked with to a
  log, so that what the middleware passes on can be read off the result.
  \<open>request_with_traceparent h\<close> is a GET request whose only header is
  \<open>traceparent: h\<close> and whose context is unset.
\<close>

definition capture :: "Request list Handler" where
  "capture w r = w @ [r]"

definition request_with_traceparent :: "string \<Rightarrow> Request" where
  "request_with_traceparent h =
     \<lparr>Method = ''GET'', URL = ''/'', Header = [''Traceparent'' \<mapsto> [h]], Body = [],
      ctx = None\<rparr>"

definition w3c_trace :: Trace where
  "w3c_trace =
     \<lparr>ID = ''4bf92f3577b34da6a3ce929d0e0e4736'', SpanID = ''00f067aa0ba902b7'',
      Sampled = True\<rparr>"

section \<open>The library functions meet their descriptions\<close>

subsection \<open>Splitting\<close>

lemma Split_no_sep: "sep \<notin> set s \<Longrightarrow> Split s sep = [s]"
proof -
  assume "sep \<notin> set s"
  then have d: "dropWhile (\<lambda>c. c \<noteq> sep) s = []" by auto
  show ?thesis by (subst Split.simps, subst d) simp
qed

lemma Split_at_sep: "sep \<notin> set p \<Longrightarrow> Split (p @ sep # rest) sep = p # Split rest sep"
proof -
  assume n: "sep \<notin> set p"
  then have d: "dropWhile (\<lambda>c. c \<noteq> sep) (p @ sep # rest) = sep # rest"
    by (auto simp: dropWhile_append3)
  from n have t: "takeWhile (\<lambda>c. c \<noteq> sep) (p @ sep # rest) = p"
    by (auto simp: takeWhile_tail)
  show ?thesis by (subst Split.simps, subst d, subst t) simp
qed

lemma Split_empty: "Split [] sep = [[]]"
  by (simp add: Split_no_sep)

subsection \<open>Parsing the flags\<close>

lemma or_32_cases: "(n :: nat) OR 32 = n \<or> n OR 32 = n + 32"
proof -
  have "n OR 32 = set_bit 5 n" by (simp add: set_bit_eq_or)
  then show ?thesis by (simp add: set_bit_eq)
qed

lemma base16_digit_table:
  "c \<in> fst ` set hex_table \<Longrightarrow> base16_digit c = hex_value c"
  by (auto simp: hex_table_def hex_value_def base16_digit_def digit_val_def lower_def)

lemma base16_digit_range:
  assumes "base16_digit c = Some d"
  shows "(of_char c :: nat) \<in> {48..57} \<union> {65..70} \<union> {97..102}"
proof -
  let ?n = "of_char c :: nat"
  show ?thesis
  proof (cases "48 \<le> ?n \<and> ?n \<le> 57")
    case True
    then show ?thesis by simp
  next
    case False
    with assms have r: "97 \<le> lower ?n" "lower ?n \<le> 102"
      by (auto simp: base16_digit_def digit_val_def Let_def split: if_splits)
    from or_32_cases [of ?n] have "lower ?n = ?n \<or> lower ?n = ?n + 32"
      by (simp add: lower_def)
    with r show ?thesis by auto
  qed
qed

lemma byte_in_table:
  assumes "(of_char c :: nat) \<in> {48..57} \<union> {65..70} \<union> {97..102}"
  shows "c \<in> fst ` set hex_table"
proof -
  from assms have "(of_char c :: nat) \<in> (\<lambda>p. of_char (fst p)) ` set hex_table"
    by (simp add: hex_table_def) arith
  then obtain p where "p \<in> set hex_table" "(of_char c :: nat) = of_char (fst p)"
    by blast
  then show ?thesis by (auto dest: of_char_eqI)
qed

lemma base16_digit_hex_value: "base16_digit c = hex_value c"
proof (cases "c \<in> fst ` set hex_table")
  case True
  then show ?thesis by (rule base16_digit_table)
next
  case False
  then have "hex_value c = None"
    by (simp add: hex_value_def map_of_eq_None_iff)
  moreover have "base16_digit c = None"
  proof (rule ccontr)
    assume "base16_digit c \<noteq> None"
    then obtain d where "base16_digit c = Some d" by auto
    then have "c \<in> fst ` set hex_table"
      by (intro byte_in_table base16_digit_range)
    with False show False by simp
  qed
  ultimately show ?thesis by simp
qed


lemma hex_acc_ge: "n \<le> hex_acc n s"
proof (induction s arbitrary: n)
  case Nil
  show ?case by simp
next
  case (Cons c s)
  have "n \<le> 16 * n + (case hex_value c of Some d \<Rightarrow> d | None \<Rightarrow> 0)" by simp
  also have "\<dots> \<le> hex_acc (16 * n + (case hex_value c of Some d \<Rightarrow> d | None \<Rightarrow> 0)) s"
    by (rule Cons.IH)
  finally show ?case by simp
qed

lemma hex_value_less: "hex_value c = Some d \<Longrightarrow> d < 16"
  by (auto simp: hex_value_def hex_table_def split: if_splits)

lemma ParseUint_loop_step:
  assumes "n \<le> 255" and "255 < cutoff"
  shows "ParseUint_loop 16 cutoff 255 n (c # s) =
           (case hex_value c of
              None \<Rightarrow> (0, Some ErrSyntax)
            | Some d \<Rightarrow>
                if 16 * n + d > 255 then (255, Some ErrRange)
                else ParseUint_loop 16 cutoff 255 (16 * n + d) s)"
proof (cases "hex_value c")
  case None
  with base16_digit_hex_value [of c] have "base16_digit c = None" by simp
  then have "digit_val c = None \<or> (\<exists>d. digit_val c = Some d \<and> d \<ge> 16)"
    by (auto simp: base16_digit_def split: option.splits if_splits)
  with None show ?thesis by auto
next
  case (Some d)
  with base16_digit_hex_value [of c] have "base16_digit c = Some d" by simp
  then have dv: "digit_val c = Some d" and d: "d < 16"
    by (auto simp: base16_digit_def split: option.splits if_splits)
  from assms have n1: "\<not> n \<ge> cutoff" by simp
  from assms have m1: "(n * 16) mod 18446744073709551616 = n * 16" by simp
  from assms d have m2: "(n * 16 + d) mod 18446744073709551616 = n * 16 + d" by simp
  from dv d n1 Some show ?thesis
    by (simp add: m1 m2 Let_def mult.commute)
qed

lemma ParseUint_loop_ok:
  "n \<le> 255 \<Longrightarrow> 255 < cutoff \<Longrightarrow>
   (ParseUint_loop 16 cutoff 255 n s = (v, None)) =
   (list_all is_hex_digit s \<and> hex_acc n s = v \<and> v \<le> 255)"
proof (induction s arbitrary: n)
  case Nil
  then show ?case by auto
next
  case (Cons c s)
  note step = ParseUint_loop_step [OF Cons.prems, of c s]
  show ?case
  proof (cases "hex_value c")
    case None
    then show ?thesis
      by (simp add: step is_hex_digit_def del: ParseUint_loop.simps)
  next
    case (Some d)
    show ?thesis
    proof (cases "16 * n + d > 255")
      case True
      have "16 * n + d \<le> hex_acc (16 * n + d) s" by (rule hex_acc_ge)
      with True have "hex_acc (16 * n + d) s > 255" by simp
      with Some True show ?thesis
        by (auto simp: step is_hex_digit_def simp del: ParseUint_loop.simps)
    next
      case False
      then have "16 * n + d \<le> 255" by simp
      from Cons.IH [OF this Cons.prems(2)] Some False show ?thesis
        by (simp add: step is_hex_digit_def del: ParseUint_loop.simps)
    qed
  qed
qed

lemma ParseUint_loop_err:
  "ParseUint_loop base cutoff maxVal n s = (v, Some e) \<Longrightarrow>
   e = ErrSyntax \<or> (e = ErrRange \<and> v = maxVal)"
  by (induction s arbitrary: n) (auto simp: Let_def split: option.splits if_splits)

lemma ParseUint_16_8_ok:
  "(ParseUint s 16 8 = (v, None)) =
   (s \<noteq> [] \<and> list_all is_hex_digit s \<and> hex_nat s = v \<and> v \<le> 255)"
proof -
  have "(ParseUint_loop 16 ((2 ^ 64 - 1) div 16 + 1) 255 0 s = (v, None)) =
        (list_all is_hex_digit s \<and> hex_acc 0 s = v \<and> v \<le> 255)"
    by (rule ParseUint_loop_ok) simp_all
  then show ?thesis
    by (simp add: ParseUint_def hex_nat_def)
qed

lemma ParseUint_16_8_err:
  "ParseUint s 16 8 = (v, Some e) \<Longrightarrow> e = ErrSyntax \<or> (e = ErrRange \<and> v = 255)"
  by (auto simp: ParseUint_def Let_def split: if_splits dest: ParseUint_loop_err)


lemma ParseInt_16_8_ok: "(ParseInt s 16 8 = (v, None)) = (spec_hex_int8 s = Some v)"
proof (cases s)
  case Nil
  then show ?thesis by (simp add: ParseInt_def spec_hex_int8_def)
next
  case (Cons c cs)
  define ds where "ds = (if c = CHR ''+'' \<or> c = CHR ''-'' then cs else s)"
  obtain un err where pu: "ParseUint ds 16 8 = (un, err)" by (cases "ParseUint ds 16 8")
  have PI: "ParseInt s 16 8 =
      (if err \<noteq> None \<and> err \<noteq> Some ErrRange then (0, err)
       else if c \<noteq> CHR ''-'' \<and> un \<ge> 128 then (127, Some ErrRange)
       else if c = CHR ''-'' \<and> un > 128 then (- 128, Some ErrRange)
       else (if c = CHR ''-'' then - int un else int un, None))"
  proof (cases "c = CHR ''+'' \<or> c = CHR ''-''")
    case True
    with pu have "ParseUint cs 16 8 = (un, err)" by (simp add: ds_def)
    with True Cons show ?thesis by (auto simp: ParseInt_def)
  next
    case False
    with pu Cons have "ParseUint (c # cs) 16 8 = (un, err)" by (simp add: ds_def)
    with False Cons show ?thesis by (auto simp: ParseInt_def)
  qed
  have SP: "spec_hex_int8 s =
      (if ds \<noteq> [] \<and> list_all is_hex_digit ds \<and>
          - 128 \<le> (if c = CHR ''-'' then - int (hex_nat ds) else int (hex_nat ds)) \<and>
          (if c = CHR ''-'' then - int (hex_nat ds) else int (hex_nat ds)) \<le> 127
       then Some (if c = CHR ''-'' then - int (hex_nat ds) else int (hex_nat ds))
       else None)"
    using Cons by (simp add: spec_hex_int8_def ds_def Let_def)
  show ?thesis
  proof (cases err)
    case None
    with pu have ok: "ds \<noteq> []" "list_all is_hex_digit ds" "hex_nat ds = un" "un \<le> 255"
      by (simp_all add: ParseUint_16_8_ok)
    from None ok show ?thesis
      unfolding PI SP by auto
  next
    case (Some e)
    with pu have e: "e = ErrSyntax \<or> (e = ErrRange \<and> un = 255)"
      by (auto dest: ParseUint_16_8_err)
    from pu Some have "\<not> (ds \<noteq> [] \<and> list_all is_hex_digit ds \<and> hex_nat ds \<le> 255)"
      using ParseUint_16_8_ok [of ds "hex_nat ds"] by auto
    with Some e show ?thesis
      unfolding PI SP by auto
  qed
qed

subsection \<open>Contexts\<close>

lemma Value_derive_step_unrelated:
  "unrelated d \<Longrightarrow> Value (derive_step c d) traceContextKeyT = Value c traceContextKeyT"
  by (cases d) simp_all

lemma Value_derive_unrelated:
  "list_all unrelated ds \<Longrightarrow> Value (derive c ds) traceContextKeyT = Value c traceContextKeyT"
  unfolding derive_def
proof (induction ds arbitrary: c)
  case Nil
  show ?case by simp
next
  case (Cons d ds)
  then have "Value (foldl derive_step (derive_step c d) ds) traceContextKeyT =
             Value (derive_step c d) traceContextKeyT"
    by simp
  with Cons.prems show ?case
    by (simp add: Value_derive_step_unrelated)
qed

lemma Value_Trace_Context:
  "Trace_assertion (Value (Trace_Context T c) traceContextKeyT) = (T, True)"
  by (simp add: Trace_Context_def Trace_assertion_def)

lemma not_derived_not_found:
  "\<not> derived_by_Trace_Context c \<Longrightarrow> \<not> snd (Trace_assertion (Value c traceContextKeyT))"
proof (induction c)
  case Background
  show ?case by (simp add: Trace_assertion_def)
next
  case (WithValue parent k v)
  show ?case
  proof (cases "k = traceContextKeyT")
    case True
    with WithValue.prems have "\<not> (case v of TraceVal t \<Rightarrow> True | _ \<Rightarrow> False)" by simp
    with True show ?thesis
      by (cases v) (simp_all add: Trace_assertion_def)
  next
    case False
    with WithValue show ?thesis by simp
  qed
next
  case (WithCancel parent)
  then show ?case by simp
qed

lemma derived_by_Trace_Context_intro: "derived_by_Trace_Context (Trace_Context T c)"
  by (simp add: Trace_Context_def)

lemma TraceParentExtractor_not_found:
  "\<not> snd (Trace_assertion (Value c traceContextKeyT)) \<Longrightarrow>
   TraceParentExtractor c recordT recordLvl recordMsg = []"
  by (cases "Trace_assertion (Value c traceContextKeyT)") (simp add: TraceParentExtractor_def)

lemma TraceParentExtractor_found:
  "Trace_assertion (Value c traceContextKeyT) = (T, True) \<Longrightarrow>
   TraceParentExtractor c recordT recordLvl recordMsg =
     (if ID T = [] then []
      else if SpanID T \<noteq> []
        then [Attr ''traceID'' (StringValue (ID T)), Attr ''traceSampled'' (BoolValue (Sampled T)),
              Attr ''spanID'' (StringValue (ID T))]
        else [Attr ''traceID'' (StringValue (ID T)), Attr ''traceSampled'' (BoolValue (Sampled T))])"
  by (simp add: TraceParentExtractor_def slog_String_def slog_Bool_def)

subsection \<open>The middleware, case by case\<close>

lemma CanonicalMIMEHeaderKey_traceparent:
  "CanonicalMIMEHeaderKey ''traceparent'' = ''Traceparent''"
  by (simp add: CanonicalMIMEHeaderKey_def validHeaderFieldByte_def char_of_def bit_Suc_0_iff Let_def)

lemma Header_Get_request_with_traceparent:
  "Header_Get (Header (request_with_traceparent h)) ''traceparent'' = h"
  by (simp add: Header_Get_def request_with_traceparent_def CanonicalMIMEHeaderKey_traceparent)

lemma Header_Get_absent:
  "Header_Get (h(CanonicalMIMEHeaderKey key := None)) key = []"
  by (simp add: Header_Get_def)

lemma New_fails_check:
  assumes "Header_Get (Header r) ''traceparent'' = h"
    and "length (Split h CHR ''-'') \<noteq> 4 \<or> Split h CHR ''-'' ! 0 \<noteq> ''00''"
  shows "New next w r = next w r"
  using assms by (auto simp: New_def Let_def)

lemma New_flags_rejected:
  assumes "Header_Get (Header r) ''traceparent'' = h"
    and "Split h CHR ''-'' = [p0, p1, p2, p3]"
    and "spec_hex_int8 p3 = None"
  shows "New next w r = next w r"
proof -
  obtain x err where p: "ParseInt p3 16 8 = (x, err)" by (cases "ParseInt p3 16 8")
  have "err \<noteq> None"
  proof
    assume "err = None"
    with p have "spec_hex_int8 p3 = Some x" by (simp add: ParseInt_16_8_ok)
    with assms(3) show False by simp
  qed
  with assms(1,2) p show ?thesis
    by (auto simp: New_def Let_def)
qed

lemma New_accepts:
  assumes "Header_Get (Header r) ''traceparent'' = h"
    and "Split h CHR ''-'' = [''00'', p1, p2, p3]"
    and "spec_hex_int8 p3 = Some v"
  shows "New next w r =
           next w (WithContext r
             (Trace_Context \<lparr>ID = p1, SpanID = p2, Sampled = (v AND 1 \<noteq> 0)\<rparr> (Request_Context r)))"
proof -
  from assms(3) have "ParseInt p3 16 8 = (v, None)" by (simp add: ParseInt_16_8_ok)
  with assms(1,2) show ?thesis
    by (simp add: New_def Let_def)
qed

lemma hex_digit_not_dash: "is_hex_digit c \<Longrightarrow> c \<noteq> CHR ''-'' \<and> c \<noteq> CHR ''+''"
  by (auto simp: is_hex_digit_def hex_value_def hex_table_def)

lemma lower_hex_digit_is_hex: "is_lower_hex_digit c \<Longrightarrow> is_hex_digit c"
  by (auto simp: is_lower_hex_digit_def is_hex_digit_def hex_value_def hex_table_def)

lemma hex_digits_no_dash: "list_all is_hex_digit s \<Longrightarrow> CHR ''-'' \<notin> set s"
  by (auto simp: list_all_iff dest: hex_digit_not_dash)

lemma Split_traceparent:
  assumes "CHR ''-'' \<notin> set v" "CHR ''-'' \<notin> set tid" "CHR ''-'' \<notin> set sid" "CHR ''-'' \<notin> set fl"
  shows "Split (v @ ''-'' @ tid @ ''-'' @ sid @ ''-'' @ fl) CHR ''-'' = [v, tid, sid, fl]"
proof -
  have "Split (v @ CHR ''-'' # (tid @ CHR ''-'' # (sid @ CHR ''-'' # fl))) CHR ''-'' =
        v # tid # sid # Split fl CHR ''-''"
    using assms by (simp add: Split_at_sep)
  with assms(4) show ?thesis by (simp add: Split_no_sep)
qed

lemma spec_hex_int8_digits:
  assumes "fl \<noteq> []" "list_all is_hex_digit fl" "hex_nat fl < 128"
  shows "spec_hex_int8 fl = Some (int (hex_nat fl))"
proof -
  from assms(1) obtain c cs where fl: "fl = c # cs" by (cases fl) auto
  with assms(2) have "is_hex_digit c" by simp
  then have "c \<noteq> CHR ''-''" "c \<noteq> CHR ''+''" by (simp_all add: hex_digit_not_dash)
  with fl assms show ?thesis
    by (simp add: spec_hex_int8_def Let_def)
qed

lemma Sampled_bit0: "(int n AND 1 \<noteq> 0) = bit n 0"
  by (simp add: and_one_eq bit_0) presburger


lemma lookup_WithContext:
  "Trace_assertion (Value (Request_Context (WithContext r (Trace_Context T c))) traceContextKeyT) =
   (T, True)"
  by (simp add: WithContext_def Request_Context_def Value_Trace_Context)

section \<open>The claims\<close>

text \<open>
  C1, as amended. For a header \<open>00-tid-sid-fl\<close> with \<open>tid\<close> 32 lower-case
  hexadecimal digits, \<open>sid\<close> 16 hexadecimal digits and \<open>fl\<close> two hexadecimal
  digits whose value is below 128, the middleware invokes the inner handler with the
  request whose context is derived by \<open>Trace_Context\<close> from the request's context and
  carries the Trace with \<open>ID = tid\<close>, \<open>SpanID = sid\<close> and \<open>Sampled\<close> equal to bit 0
  of the flags byte; looking the Trace up in that context finds it.
\<close>

theorem C1_valid_header_attaches_trace:
  assumes "Header_Get (Header r) ''traceparent'' = ''00'' @ ''-'' @ tid @ ''-'' @ sid @ ''-'' @ fl"
    and "length tid = 32" and "list_all is_lower_hex_digit tid"
    and "length sid = 16" and "list_all is_hex_digit sid"
    and "length fl = 2" and "list_all is_hex_digit fl"
    and "hex_nat fl < 128"
  shows "New next w r =
           next w (WithContext r
             (Trace_Context \<lparr>ID = tid, SpanID = sid, Sampled = bit (hex_nat fl) 0\<rparr>
                (Request_Context r))) \<and>
         Trace_assertion
           (Value (Request_Context (WithContext r
              (Trace_Context \<lparr>ID = tid, SpanID = sid, Sampled = bit (hex_nat fl) 0\<rparr>
                 (Request_Context r)))) traceContextKeyT) =
         (\<lparr>ID = tid, SpanID = sid, Sampled = bit (hex_nat fl) 0\<rparr>, True)"
proof -
  from assms(3) have "list_all is_hex_digit tid"
    by (auto simp: list_all_iff dest: lower_hex_digit_is_hex)
  then have d1: "CHR ''-'' \<notin> set tid" by (rule hex_digits_no_dash)
  from assms(5) have d2: "CHR ''-'' \<notin> set sid" by (rule hex_digits_no_dash)
  from assms(7) have d3: "CHR ''-'' \<notin> set fl" by (rule hex_digits_no_dash)
  have d0: "CHR ''-'' \<notin> set ''00''" by simp
  have sp: "Split (''00'' @ ''-'' @ tid @ ''-'' @ sid @ ''-'' @ fl) CHR ''-'' = [''00'', tid, sid, fl]"
    using d0 d1 d2 d3 by (rule Split_traceparent)
  from assms(6) have "fl \<noteq> []" by auto
  then have fv: "spec_hex_int8 fl = Some (int (hex_nat fl))"
    using assms(7,8) by (rule spec_hex_int8_digits)
  from New_accepts [OF assms(1) sp fv, of "next" w]
  show ?thesis
    by (simp only: Sampled_bit0 lookup_WithContext simp_thms)
qed

theorem C1_valid_header_attaches_trace_witness:
  "New capture []
     (request_with_traceparent ''00-4bf92f3577b34da6a3ce929d0e0e4736-00f067aa0ba902b7-01'') =
   [WithContext
      (request_with_traceparent ''00-4bf92f3577b34da6a3ce929d0e0e4736-00f067aa0ba902b7-01'')
      (Trace_Context w3c_trace Background)] \<and>
   Trace_assertion (Value (Trace_Context w3c_trace Background) traceContextKeyT) = (w3c_trace, True)"
proof -
  let ?tid = "''4bf92f3577b34da6a3ce929d0e0e4736''"
  let ?sid = "''00f067aa0ba902b7''"
  let ?r = "request_with_traceparent ''00-4bf92f3577b34da6a3ce929d0e0e4736-00f067aa0ba902b7-01''"
  have h1: "Header_Get (Header ?r) ''traceparent'' = ''00'' @ ''-'' @ ?tid @ ''-'' @ ?sid @ ''-'' @ ''01''"
    by (simp add: Header_Get_request_with_traceparent)
  have h2: "length ?tid = 32" by simp
  have h3: "list_all is_lower_hex_digit ?tid" by (simp add: is_lower_hex_digit_def)
  have h4: "length ?sid = 16" by simp
  have h5: "list_all is_hex_digit ?sid" by (simp add: is_hex_digit_def hex_value_def hex_table_def)
  have h6: "length ''01'' = 2" by simp
  have h7: "list_all is_hex_digit ''01''" by (simp add: is_hex_digit_def hex_value_def hex_table_def)
  have h8: "hex_nat ''01'' < 128" by (simp add: hex_nat_def hex_value_def hex_table_def)
  have v: "bit (hex_nat ''01'') 0" by (simp add: hex_nat_def hex_value_def hex_table_def bit_0)
  have c: "Request_Context ?r = Background"
    by (simp add: Request_Context_def request_with_traceparent_def)
  from C1_valid_header_attaches_trace [OF h1 h2 h3 h4 h5 h6 h7 h8, of capture "[]"]
  have "New capture [] ?r =
          capture [] (WithContext ?r
            (Trace_Context \<lparr>ID = ?tid, SpanID = ?sid, Sampled = bit (hex_nat ''01'') 0\<rparr>
               (Request_Context ?r)))"
    by (rule conjunct1)
  then have "New capture [] ?r = [WithContext ?r (Trace_Context w3c_trace Background)]"
    by (simp add: v c capture_def w3c_trace_def)
  then show ?thesis
    by (simp add: Value_Trace_Context)
qed

text \<open>
  Without the bound on the flags the statement fails. The header below has the stated
  form, with flags \<open>ff\<close>, whose bit 0 is set; \<open>ParseInt\<close> with bit size 8 reports
  a range error for every value above 127, so the inner handler receives the original
  request, whose context carries no Trace.
\<close>

theorem C1_counterexample:
  "length ''4bf92f3577b34da6a3ce929d0e0e4736'' = 32 \<and>
   list_all is_lower_hex_digit ''4bf92f3577b34da6a3ce929d0e0e4736'' \<and>
   length ''00f067aa0ba902b7'' = 16 \<and>
   list_all is_hex_digit ''00f067aa0ba902b7'' \<and>
   length ''ff'' = 2 \<and> list_all is_hex_digit ''ff'' \<and> bit (hex_nat ''ff'') 0 \<and>
   ParseInt ''ff'' 16 8 = (127, Some ErrRange) \<and>
   New capture []
     (request_with_traceparent ''00-4bf92f3577b34da6a3ce929d0e0e4736-00f067aa0ba902b7-ff'') =
   [request_with_traceparent ''00-4bf92f3577b34da6a3ce929d0e0e4736-00f067aa0ba902b7-ff''] \<and>
   Trace_assertion
     (Value (Request_Context
        (request_with_traceparent ''00-4bf92f3577b34da6a3ce929d0e0e4736-00f067aa0ba902b7-ff''))
        traceContextKeyT) \<noteq> (w3c_trace, True)"
proof -
  let ?h = "''00-4bf92f3577b34da6a3ce929d0e0e4736-00f067aa0ba902b7-ff''"
  have sp: "Split ?h CHR ''-'' =
              [''00'', ''4bf92f3577b34da6a3ce929d0e0e4736'', ''00f067aa0ba902b7'', ''ff'']"
    by (simp add: Split.simps)
  have fl: "spec_hex_int8 ''ff'' = None"
    by (simp add: spec_hex_int8_def hex_nat_def hex_value_def hex_table_def is_hex_digit_def)
  have n: "New capture [] (request_with_traceparent ?h) = [request_with_traceparent ?h]"
    using New_flags_rejected [OF Header_Get_request_with_traceparent sp fl, of capture "[]"]
    by (simp add: capture_def)
  have l: "Trace_assertion (Value (Request_Context (request_with_traceparent ?h)) traceContextKeyT)
             \<noteq> (w3c_trace, True)"
    by (simp add: Request_Context_def request_with_traceparent_def Trace_assertion_def)
  have "list_all is_lower_hex_digit ''4bf92f3577b34da6a3ce929d0e0e4736''"
    by (simp add: is_lower_hex_digit_def)
  moreover have "list_all is_hex_digit ''00f067aa0ba902b7''"
    by (simp add: is_hex_digit_def hex_value_def hex_table_def)
  moreover have "list_all is_hex_digit ''ff''"
    by (simp add: is_hex_digit_def hex_value_def hex_table_def)
  moreover have "bit (hex_nat ''ff'') 0"
    by (simp add: hex_nat_def hex_value_def hex_table_def bit_0)
  moreover have "ParseInt ''ff'' 16 8 = (127, Some ErrRange)"
    by (simp add: ParseInt_def ParseUint_def digit_val_def lower_def)
  ultimately show ?thesis using n l by simp
qed

text \<open>
  C2. When the header splits into exactly four parts, the first being \<open>00\<close>, and
  the fourth is not a base-16 integer in the signed 8-bit range, the middleware invokes
  the inner handler with the original request: no context is derived, exactly as for a
  request from which the header is absent.
\<close>

theorem C2_bad_flags_like_absent:
  assumes "Header_Get (Header r) ''traceparent'' = h"
    and "Split h CHR ''-'' = [p0, p1, p2, p3]"
    and "p0 = ''00''"
    and "spec_hex_int8 p3 = None"
  shows "New next w r = next w r \<and>
         New capture ws r = ws @ [r] \<and>
         New next w (r\<lparr>Header := (Header r)(CanonicalMIMEHeaderKey ''traceparent'' := None)\<rparr>) =
           next w (r\<lparr>Header := (Header r)(CanonicalMIMEHeaderKey ''traceparent'' := None)\<rparr>)"
proof -
  let ?r0 = "r\<lparr>Header := (Header r)(CanonicalMIMEHeaderKey ''traceparent'' := None)\<rparr>"
  have a: "New next w r = next w r"
    using assms(1,2,4) by (rule New_flags_rejected)
  have "New capture ws r = capture ws r"
    using assms(1,2,4) by (rule New_flags_rejected)
  then have b: "New capture ws r = ws @ [r]" by (simp add: capture_def)
  have g: "Header_Get (Header ?r0) ''traceparent'' = []"
    by (simp add: Header_Get_absent)
  have "length (Split [] CHR ''-'') \<noteq> 4 \<or> Split [] CHR ''-'' ! 0 \<noteq> ''00''"
    by (simp add: Split_empty)
  with g have c: "New next w ?r0 = next w ?r0" by (rule New_fails_check)
  from a b c show ?thesis by simp
qed

theorem C2_bad_flags_like_absent_witness:
  "New capture [] (request_with_traceparent ''00-abc-def-zz'') =
     [request_with_traceparent ''00-abc-def-zz''] \<and>
   New capture [] (request_with_traceparent ''00-abc-def-80'') =
     [request_with_traceparent ''00-abc-def-80'']"
proof -
  have s1: "Split ''00-abc-def-zz'' CHR ''-'' = [''00'', ''abc'', ''def'', ''zz'']"
    by (simp add: Split.simps)
  have s2: "Split ''00-abc-def-80'' CHR ''-'' = [''00'', ''abc'', ''def'', ''80'']"
    by (simp add: Split.simps)
  have f1: "spec_hex_int8 ''zz'' = None"
    by (simp add: spec_hex_int8_def hex_nat_def hex_value_def hex_table_def is_hex_digit_def)
  have f2: "spec_hex_int8 ''80'' = None"
    by (simp add: spec_hex_int8_def hex_nat_def hex_value_def hex_table_def is_hex_digit_def)
  from C2_bad_flags_like_absent [OF Header_Get_request_with_traceparent s1 refl f1, of capture "[]" "[]"]
    C2_bad_flags_like_absent [OF Header_Get_request_with_traceparent s2 refl f2, of capture "[]" "[]"]
  show ?thesis by (simp add: capture_def)
qed

text \<open>
  C3. When the header does not split into exactly four parts, or its first part is not
  \<open>00\<close>, the inner handler is invoked with the request the middleware received: the
  same context (none is derived) and every other field as it was.
\<close>

theorem C3_failed_check_passes_request_through:
  assumes "Header_Get (Header r) ''traceparent'' = h"
    and "length (Split h CHR ''-'') \<noteq> 4 \<or> Split h CHR ''-'' ! 0 \<noteq> ''00''"
  shows "New next w r = next w r \<and> New capture ws r = ws @ [r]"
proof -
  have "New next w r = next w r" using assms by (rule New_fails_check)
  moreover have "New capture ws r = capture ws r" using assms by (rule New_fails_check)
  ultimately show ?thesis by (simp add: capture_def)
qed

theorem C3_failed_check_passes_request_through_witness:
  "New capture [] (request_with_traceparent ''01-abc-def-01'') =
     [request_with_traceparent ''01-abc-def-01''] \<and>
   New capture [] (request_with_traceparent ''00-abc-def'') =
     [request_with_traceparent ''00-abc-def''] \<and>
   New capture [] (request_with_traceparent []) = [request_with_traceparent []]"
proof -
  have h1: "length (Split ''01-abc-def-01'' CHR ''-'') \<noteq> 4 \<or>
            Split ''01-abc-def-01'' CHR ''-'' ! 0 \<noteq> ''00''"
    by (simp add: Split.simps)
  have h2: "length (Split ''00-abc-def'' CHR ''-'') \<noteq> 4 \<or>
            Split ''00-abc-def'' CHR ''-'' ! 0 \<noteq> ''00''"
    by (simp add: Split.simps)
  have h3: "length (Split [] CHR ''-'') \<noteq> 4 \<or> Split [] CHR ''-'' ! 0 \<noteq> ''00''"
    by (simp add: Split.simps)
  from C3_failed_check_passes_request_through [OF Header_Get_request_with_traceparent h1, of capture "[]" "[]"]
    C3_failed_check_passes_request_through [OF Header_Get_request_with_traceparent h2, of capture "[]" "[]"]
    C3_failed_check_passes_request_through [OF Header_Get_request_with_traceparent h3, of capture "[]" "[]"]
  show ?thesis by (simp add: capture_def)
qed

text \<open>
  C4. Looking the trace up in \<open>Trace_Context T c\<close> returns \<open>T\<close> and found, also
  after any further derivations that do not use the package's key; and the lookup on a
  context no link of which was made by \<open>Trace_Context\<close> reports not found.
\<close>

theorem C4_context_roundtrip:
  "Trace_assertion (Value (Trace_Context T c) traceContextKeyT) = (T, True) \<and>
   (list_all unrelated ds \<longrightarrow>
      Trace_assertion (Value (derive (Trace_Context T c) ds) traceContextKeyT) = (T, True)) \<and>
   (\<not> derived_by_Trace_Context c' \<longrightarrow>
      \<not> snd (Trace_assertion (Value c' traceContextKeyT)))"
  by (simp add: Value_derive_unrelated Value_Trace_Context not_derived_not_found)

theorem C4_context_roundtrip_witness:
  "Trace_assertion
     (Value (derive (Trace_Context w3c_trace Background)
               [DeriveValue (OtherKey ''user'') (OtherVal ''alice''), DeriveCancel,
                DeriveValue (OtherKey ''traceparent'') (TraceVal \<lparr>ID = ''x'', SpanID = ''y'', Sampled = False\<rparr>)])
        traceContextKeyT) = (w3c_trace, True) \<and>
   \<not> snd (Trace_assertion
       (Value (WithCancel (WithValue Background (OtherKey ''user'') (OtherVal ''alice'')))
          traceContextKeyT))"
proof -
  let ?ds = "[DeriveValue (OtherKey ''user'') (OtherVal ''alice''), DeriveCancel,
              DeriveValue (OtherKey ''traceparent'') (TraceVal \<lparr>ID = ''x'', SpanID = ''y'', Sampled = False\<rparr>)]"
  let ?c' = "WithCancel (WithValue Background (OtherKey ''user'') (OtherVal ''alice''))"
  have h1: "list_all unrelated ?ds" by simp
  have h2: "\<not> derived_by_Trace_Context ?c'" by simp
  from C4_context_roundtrip [of w3c_trace Background ?ds ?c'] h1 h2
  show ?thesis by blast
qed

text \<open>
  C5. On a context no link of which stores a Trace, and on a context whose lookup finds
  a Trace with an empty \<open>ID\<close>, the extractor returns the empty list, whatever the
  time, level and message. The extractor is a total function: it has no failing branch.
\<close>

theorem C5_extractor_empty:
  "(\<not> derived_by_Trace_Context c \<longrightarrow> TraceParentExtractor c recordT recordLvl recordMsg = []) \<and>
   (Trace_assertion (Value c' traceContextKeyT) = (T, True) \<and> ID T = [] \<longrightarrow>
      TraceParentExtractor c' recordT recordLvl recordMsg = [])"
  by (simp add: not_derived_not_found TraceParentExtractor_not_found TraceParentExtractor_found)

theorem C5_extractor_empty_witness:
  "TraceParentExtractor (WithValue Background (OtherKey ''user'') (OtherVal ''alice'')) 0 4 ''served'' = [] \<and>
   TraceParentExtractor (Trace_Context \<lparr>ID = [], SpanID = ''00f067aa0ba902b7'', Sampled = True\<rparr> Background)
      0 4 ''served'' = []"
proof -
  let ?c = "WithValue Background (OtherKey ''user'') (OtherVal ''alice'')"
  let ?T = "\<lparr>ID = [], SpanID = ''00f067aa0ba902b7'', Sampled = True\<rparr>"
  have h1: "\<not> derived_by_Trace_Context ?c" by simp
  have h2: "Trace_assertion (Value (Trace_Context ?T Background) traceContextKeyT) = (?T, True) \<and> ID ?T = []"
    by (simp add: Trace_Context_def Trace_assertion_def)
  from C5_extractor_empty [of ?c 0 4 "''served''" "Trace_Context ?T Background" ?T] h1 h2
  show ?thesis by blast
qed



text \<open>
  C7. The header \<open>00-abc-def-01\<close> is accepted: the inner handler is invoked with a
  context carrying the Trace with \<open>ID = abc\<close>, \<open>SpanID = def\<close> and
  \<open>Sampled = True\<close>. Neither the length nor the characters of the two identifiers
  are checked: for any two strings \<open>tid\<close> and \<open>sid\<close> free of the separator, of any
  length and made of any bytes, the header \<open>00-tid-sid-01\<close> is accepted in the same
  way, with \<open>ID = tid\<close> and \<open>SpanID = sid\<close> taken verbatim, and the lookup in the
  context passed on finds that Trace.
\<close>

theorem C7_ids_accepted_verbatim:
  "(Header_Get (Header r) ''traceparent'' = ''00-abc-def-01'' \<longrightarrow>
      New next w r =
        next w (WithContext r
          (Trace_Context \<lparr>ID = ''abc'', SpanID = ''def'', Sampled = True\<rparr> (Request_Context r)))) \<and>
   (CHR ''-'' \<notin> set tid \<and> CHR ''-'' \<notin> set sid \<and>
    Header_Get (Header r') ''traceparent'' = ''00'' @ ''-'' @ tid @ ''-'' @ sid @ ''-'' @ ''01'' \<longrightarrow>
      New next w r' =
        next w (WithContext r'
          (Trace_Context \<lparr>ID = tid, SpanID = sid, Sampled = True\<rparr> (Request_Context r'))) \<and>
      Trace_assertion
        (Value (Request_Context (WithContext r'
           (Trace_Context \<lparr>ID = tid, SpanID = sid, Sampled = True\<rparr> (Request_Context r'))))
           traceContextKeyT) =
      (\<lparr>ID = tid, SpanID = sid, Sampled = True\<rparr>, True))"
proof -
  have fl: "spec_hex_int8 ''01'' = Some 1"
    by (simp add: spec_hex_int8_def hex_nat_def hex_value_def hex_table_def is_hex_digit_def)
  have d0: "CHR ''-'' \<notin> set ''00''" and d3: "CHR ''-'' \<notin> set ''01''" by simp_all
  have general:
    "New next w q =
       next w (WithContext q
         (Trace_Context \<lparr>ID = p1, SpanID = p2, Sampled = True\<rparr> (Request_Context q)))"
    if n1: "CHR ''-'' \<notin> set p1" and n2: "CHR ''-'' \<notin> set p2"
      and h: "Header_Get (Header q) ''traceparent'' = ''00'' @ ''-'' @ p1 @ ''-'' @ p2 @ ''-'' @ ''01''"
    for q p1 p2
  proof -
    have sp: "Split (''00'' @ ''-'' @ p1 @ ''-'' @ p2 @ ''-'' @ ''01'') CHR ''-'' =
                [''00'', p1, p2, ''01'']"
      using d0 n1 n2 d3 by (rule Split_traceparent)
    from New_accepts [OF h sp fl, of "next" w] show ?thesis by simp
  qed
  have exact:
    "New next w r =
       next w (WithContext r
         (Trace_Context \<lparr>ID = ''abc'', SpanID = ''def'', Sampled = True\<rparr> (Request_Context r)))"
    if "Header_Get (Header r) ''traceparent'' = ''00-abc-def-01''"
    using general [of "''abc''" "''def''" r] that by simp
  from exact general show ?thesis
    by (simp add: lookup_WithContext)
qed

theorem C7_ids_accepted_verbatim_witness:
  "New capture [] (request_with_traceparent ''00-abc-def-01'') =
     [WithContext (request_with_traceparent ''00-abc-def-01'')
        (Trace_Context \<lparr>ID = ''abc'', SpanID = ''def'', Sampled = True\<rparr> Background)] \<and>
   New capture []
     (request_with_traceparent ''00-xyz, not hex and longer than the 32 digits of a trace id-Zz!-01'') =
     [WithContext
        (request_with_traceparent ''00-xyz, not hex and longer than the 32 digits of a trace id-Zz!-01'')
        (Trace_Context
           \<lparr>ID = ''xyz, not hex and longer than the 32 digits of a trace id'',
              SpanID = ''Zz!'', Sampled = True\<rparr> Background)] \<and>
   Trace_assertion
     (Value (Request_Context (hd (New capture []
        (request_with_traceparent ''00-xyz, not hex and longer than the 32 digits of a trace id-Zz!-01''))))
        traceContextKeyT) =
   (\<lparr>ID = ''xyz, not hex and longer than the 32 digits of a trace id'',
       SpanID = ''Zz!'', Sampled = True\<rparr>, True)"
proof -
  let ?tid = "''xyz, not hex and longer than the 32 digits of a trace id''"
  let ?sid = "''Zz!''"
  let ?r1 = "request_with_traceparent ''00-abc-def-01''"
  let ?r2 = "request_with_traceparent ''00-xyz, not hex and longer than the 32 digits of a trace id-Zz!-01''"
  have c1: "Request_Context ?r1 = Background"
    by (simp add: Request_Context_def request_with_traceparent_def)
  have c2: "Request_Context ?r2 = Background"
    by (simp add: Request_Context_def request_with_traceparent_def)
  have h1: "Header_Get (Header ?r1) ''traceparent'' = ''00-abc-def-01''"
    by (rule Header_Get_request_with_traceparent)
  have h2: "CHR ''-'' \<notin> set ?tid \<and> CHR ''-'' \<notin> set ?sid \<and>
            Header_Get (Header ?r2) ''traceparent'' = ''00'' @ ''-'' @ ?tid @ ''-'' @ ?sid @ ''-'' @ ''01''"
    by (simp add: Header_Get_request_with_traceparent)
  note th = C7_ids_accepted_verbatim [of ?r1 capture "[]" ?tid ?sid ?r2]
  from th h1 have a: "New capture [] ?r1 =
      capture [] (WithContext ?r1
        (Trace_Context \<lparr>ID = ''abc'', SpanID = ''def'', Sampled = True\<rparr> (Request_Context ?r1)))"
    by blast
  from th h2 have b: "New capture [] ?r2 =
      capture [] (WithContext ?r2
        (Trace_Context \<lparr>ID = ?tid, SpanID = ?sid, Sampled = True\<rparr> (Request_Context ?r2)))"
    by blast
  from a have a': "New capture [] ?r1 =
      [WithContext ?r1 (Trace_Context \<lparr>ID = ''abc'', SpanID = ''def'', Sampled = True\<rparr> Background)]"
    by (simp add: c1 capture_def)
  from b have b': "New capture [] ?r2 =
      [WithContext ?r2 (Trace_Context \<lparr>ID = ?tid, SpanID = ?sid, Sampled = True\<rparr> Background)]"
    by (simp add: c2 capture_def)
  show ?thesis
    by (simp add: a' b' lookup_WithContext)
qed

text \<open>
  C8. The extractor's result depends on the context only: two calls on the same context
  with any times, levels and messages return the same list.
\<close>

theorem C8_extractor_ignores_record:
  "TraceParentExtractor c t1 l1 m1 = TraceParentExtractor c t2 l2 m2"
  by (simp add: TraceParentExtractor_def)

theorem C8_extractor_ignores_record_witness:
  "TraceParentExtractor (Trace_Context w3c_trace Background) 0 (- 4) ''debug'' =
   TraceParentExtractor (Trace_Context w3c_trace Background) 1762150000 8 ''failed''"
  by (rule C8_extractor_ignores_record)

text \<open>
  C9. On a context whose lookup finds a Trace with non-empty \<open>ID\<close> and empty
  \<open>SpanID\<close>, the extractor returns exactly two fields, in this order: the string
  field \<open>traceID\<close> with the trace id and the boolean field \<open>traceSampled\<close> with
  the sampled flag; no \<open>spanID\<close> field follows.
\<close>

theorem C9_extractor_two_fields:
  assumes "Trace_assertion (Value c traceContextKeyT) = (T, True)"
    and "ID T \<noteq> []" and "SpanID T = []"
  shows "TraceParentExtractor c recordT recordLvl recordMsg =
           [Attr ''traceID'' (StringValue (ID T)),
            Attr ''traceSampled'' (BoolValue (Sampled T))]"
  using assms by (simp add: TraceParentExtractor_found)

theorem C9_extractor_two_fields_witness:
  "TraceParentExtractor
     (Trace_Context \<lparr>ID = ''4bf92f3577b34da6a3ce929d0e0e4736'', SpanID = [], Sampled = True\<rparr>
        Background) 0 0 ''incoming'' =
     [Attr ''traceID'' (StringValue ''4bf92f3577b34da6a3ce929d0e0e4736''),
      Attr ''traceSampled'' (BoolValue True)] \<and>
   TraceParentExtractor
     (Trace_Context \<lparr>ID = ''4bf92f3577b34da6a3ce929d0e0e4736'', SpanID = [], Sampled = False\<rparr>
        Background) 0 0 ''incoming'' =
     [Attr ''traceID'' (StringValue ''4bf92f3577b34da6a3ce929d0e0e4736''),
      Attr ''traceSampled'' (BoolValue False)]"
proof -
  let ?T = "\<lparr>ID = ''4bf92f3577b34da6a3ce929d0e0e4736'', SpanID = [], Sampled = True\<rparr>"
  let ?F = "\<lparr>ID = ''4bf92f3577b34da6a3ce929d0e0e4736'', SpanID = [], Sampled = False\<rparr>"
  have t1: "Trace_assertion (Value (Trace_Context ?T Background) traceContextKeyT) = (?T, True)"
    by (rule Value_Trace_Context)
  have f1: "Trace_assertion (Value (Trace_Context ?F Background) traceContextKeyT) = (?F, True)"
    by (rule Value_Trace_Context)
  have t2: "ID ?T \<noteq> []" and t3: "SpanID ?T = []" by simp_all
  have f2: "ID ?F \<noteq> []" and f3: "SpanID ?F = []" by simp_all
  from C9_extractor_two_fields [OF t1 t2 t3, of 0 0 "''incoming''"]
    C9_extractor_two_fields [OF f1 f2 f3, of 0 0 "''incoming''"]
  show ?thesis by simp
qed

text \<open>
  C10. Attaching \<open>T2\<close> to a context that already carries \<open>T1\<close> makes the lookup
  return \<open>T2\<close>: the most recent attachment shadows the earlier one.
\<close>

theorem C10_last_attachment_wins:
  "Trace_assertion (Value (Trace_Context T2 (Trace_Context T1 c)) traceContextKeyT) = (T2, True)"
  by (simp add: Trace_Context_def Trace_assertion_def)

theorem C10_last_attachment_wins_witness:
  "Trace_assertion
     (Value (Trace_Context \<lparr>ID = ''abc'', SpanID = ''def'', Sampled = False\<rparr>
               (Trace_Context w3c_trace Background)) traceContextKeyT) =
   (\<lparr>ID = ''abc'', SpanID = ''def'', Sampled = False\<rparr>, True)"
  by (rule C10_last_attachment_wins)

end
